theory Spec2Isabelle
  imports Complex_Main "HOL-Library.Multiset" "HOL-Library.Signed_Division"
begin

section \<open>Data model and operations\<close>

text \<open>
  Sizes and indices (\<open>size_t\<close>, \<open>index_t\<close>) are modelled as \<open>nat\<close> and signed 64-bit values
  (\<open>int64_t\<close>) as \<open>int\<close>; the theorems below are about runs in which no intermediate value
  leaves its machine range. C++ integer division truncates towards zero: it is \<open>sdiv\<close> and
  \<open>smod\<close>. A link end \<open>whichEnd\<close> is \<open>0\<close> or \<open>1\<close>; the source tests \<open>whichEnd == 0\<close> and
  treats every other value as end 1.
\<close>

subsection \<open>Rounding helpers of GeneralLocal2DLink\<close>

definition div_round_neginf :: "int \<Rightarrow> int \<Rightarrow> int" where
  "div_round_neginf a b = (if a \<ge> 0 \<or> a smod b = 0 then a sdiv b else a sdiv b - 1)"

definition div_round_posinf :: "int \<Rightarrow> int \<Rightarrow> int" where
  "div_round_posinf a b =
     (if a \<ge> 0 then (if a smod b = 0 then a sdiv b else a sdiv b + 1)
      else (if (- a) smod b = 0 then a sdiv b else a sdiv b + 1))"

subsection \<open>DenseLink\<close>

text \<open>\<open>std::accumulate(d.begin(), d.end(), 1, std::multiplies<>())\<close>: a left fold.\<close>

definition flat_size :: "nat list \<Rightarrow> nat" where
  "flat_size d = foldl (\<lambda>acc x. acc * x) 1 d"

record DenseLink =
  dim0 :: "nat list"
  dim1 :: "nat list"

definition Dense_maxProgress :: "DenseLink \<Rightarrow> nat \<Rightarrow> nat" where
  "Dense_maxProgress l whichEnd = flat_size (dim0 l) * flat_size (dim1 l)"



subsection \<open>Scheduler: timing model\<close>

text \<open>
  What the source raises, asserts or traps on is a value of \<open>error\<close>: a failed \<open>assert\<close>, the
  \<open>std::out_of_range\<close> of \<open>vector::at\<close>, an integer division by zero, and an unchecked
  \<open>operator[]\<close> outside its vector (undefined in the source).
\<close>

datatype error = AssertionFailed | OutOfRange | DivisionByZero | UncheckedAccess

text \<open>
  \<open>dur_t\<close> is \<open>std::chrono::steady_clock::duration\<close>, a signed count of nanoseconds.
  \<open>of_microseconds n\<close> is the conversion of \<open>std::chrono::microseconds(n)\<close> to \<open>dur_t\<close>, and
  \<open>microseconds d\<close> the source's helper of that name (a \<open>duration_cast\<close> to a \<open>double\<close> count of
  microseconds). The \<open>double\<close>s of the timing model are idealised as reals; \<open>trunc\<close> is the
  conversion of a \<open>double\<close> to an integer (towards zero).
\<close>

definition of_microseconds :: "int \<Rightarrow> int" where
  "of_microseconds n = 1000 * n"



record PerfTracker =
  totTime :: int
  totOps :: nat
  T_op :: real


subsection \<open>Scheduler: jobs, chunks, barriers, client batches\<close>

text \<open>
  Of a \<open>Job\<close> the fields that planning reads or writes are kept. A \<open>Job *\<close> is an address in
  \<open>jobStore\<close>. \<open>chunk_start\<close> and \<open>chunk_end\<close> are \<open>JobChunk::start\<close> and \<open>JobChunk::end\<close>.
\<close>

record Job =
  nextProgressPoint :: "nat \<Rightarrow> nat"
  opTypeIndex :: nat
  progress :: nat
  maxProgress :: nat
  indivisible :: bool
  cmpId :: int

record JobChunk =
  chunk_start :: nat
  chunk_end :: nat
  job :: nat

record JobChunkBatch =
  chunks :: "JobChunk list"
  statsRecorded :: bool
  neededByWorker :: bool

record Barrier =
  doneWorkers :: nat
  barrier_sequence :: nat
  barrier_jobs :: "nat list"
  singleThreaded :: bool
  singleThreadedStartedYet :: bool
  finalized :: bool
  workerBatches :: "JobChunkBatch list"

record ClientBatch =
  batch_clientBatchNumber :: nat
  batch_jobs :: "Job list"
  readyToSchedule :: bool
  scheduled :: bool

text \<open>
  The scheduler's state: \<open>barrierList\<close> is the linked list from \<open>firstBarrier\<close> to
  \<open>lastBarrier\<close>, \<open>batches\<close> is \<open>schedChan.batches\<close>. Threads, mutexes, condition variables and
  the worker channels are not part of the model.
\<close>

record Scheduler =
  sequence :: nat
  clientBatchNumber :: nat
  timeByKernel :: "nat \<rightharpoonup> PerfTracker"
  deterministic :: bool
  singleThreadThreshold :: int
  nWorkers :: nat
  barrierList :: "Barrier list"
  jobStore :: "nat \<Rightarrow> Job"
  batches :: "ClientBatch list"




subsection \<open>Scheduler: planning\<close>



















subsection \<open>Scheduler: client submission\<close>

text \<open>
  \<open>processOp\<close>, as far as the batch queue and the batch counter go: the job built from the
  arguments is \<open>jb\<close> (with progress 0). The call returns the batch number. The wait of a
  blocking call changes nothing in the queue by itself; what the scheduler thread does to the
  queue meanwhile is \<open>cleanup_batches\<close>, the erase loop of \<open>cleanupBarrier\<close> for a completed
  client batch number \<open>n\<close>.
\<close>

definition processOp :: "Scheduler \<Rightarrow> Job \<Rightarrow> bool \<Rightarrow> bool \<Rightarrow> nat \<times> Scheduler" where
  "processOp s jb endOfBatch blocking =
     (let endOfBatch' = (if blocking then True else endOfBatch);
          s1 = (if length (batches s) = 0 \<or> readyToSchedule (last (batches s)) = True
                then s\<lparr>batches := batches s @
                         [\<lparr>batch_clientBatchNumber = clientBatchNumber s + 1, batch_jobs = [],
                           readyToSchedule = False, scheduled = False\<rparr>],
                       clientBatchNumber := clientBatchNumber s + 1\<rparr>
                else s);
          batch = last (batches s1);
          batchNum = batch_clientBatchNumber batch;
          batch1 = batch\<lparr>batch_jobs := batch_jobs batch @ [jb\<lparr>progress := 0\<rparr>]\<rparr>;
          batch2 = (if endOfBatch' then batch1\<lparr>readyToSchedule := True\<rparr> else batch1)
      in (batchNum, s1\<lparr>batches := butlast (batches s1) @ [batch2]\<rparr>))"

definition cleanup_batches :: "nat \<Rightarrow> Scheduler \<Rightarrow> Scheduler" where
  "cleanup_batches n s = s\<lparr>batches := filter (\<lambda>b. \<not> batch_clientBatchNumber b \<le> n) (batches s)\<rparr>"

text \<open>
  A history of the client: calls of \<open>processOp\<close>, between which the scheduler thread may
  schedule a ready batch, complete it and clean the queue up. \<open>client_run\<close> collects the
  numbers the calls return.
\<close>

datatype client_event = ProcessOp Job bool bool | BatchCompleted nat

fun client_step :: "Scheduler \<Rightarrow> client_event \<Rightarrow> nat list \<times> Scheduler" where
  "client_step s (ProcessOp jb endOfBatch blocking) =
     (case processOp s jb endOfBatch blocking of (n, s1) \<Rightarrow> ([n], s1))"
| "client_step s (BatchCompleted n) =
     (if list_ex (\<lambda>b. batch_clientBatchNumber b = n \<and> readyToSchedule b) (batches s)
      then ([], cleanup_batches n s) else ([], s))"

fun client_run :: "Scheduler \<Rightarrow> client_event list \<Rightarrow> nat list" where
  "client_run s [] = []"
| "client_run s (e # es) = (case client_step s e of (ns, s1) \<Rightarrow> ns @ client_run s1 es)"

fun closes_batch :: "client_event \<Rightarrow> bool" where
  "closes_batch (ProcessOp jb endOfBatch blocking) = (endOfBatch \<or> blocking)"
| "closes_batch (BatchCompleted n) = False"

fun is_call :: "client_event \<Rightarrow> bool" where
  "is_call (ProcessOp jb endOfBatch blocking) = True"
| "is_call (BatchCompleted n) = False"

text \<open>
  The scheduler as constructed and started: \<open>schedLoop\<close> has created the first barrier (sequence
  0, counted as done by every worker), nothing is planned and no batch is submitted.
\<close>

definition initial_scheduler :: "nat \<Rightarrow> (nat \<Rightarrow> Job) \<Rightarrow> Scheduler" where
  "initial_scheduler n js =
     \<lparr>sequence = 0, clientBatchNumber = 1, timeByKernel = Map.empty, deterministic = False,
      singleThreadThreshold = of_microseconds 30, nWorkers = n,
      barrierList =
        [\<lparr>doneWorkers = n, barrier_sequence = 0, barrier_jobs = [],
          singleThreaded = False, singleThreadedStartedYet = False, finalized = False,
          workerBatches = replicate n \<lparr>chunks = [], statsRecorded = False, neededByWorker = True\<rparr>\<rparr>],
      jobStore = js, batches = []\<rparr>"


text \<open>
  \<open>batch_open\<close>: the queue ends in a batch that is still open. \<open>queue_inv\<close>: what holds of the
  queue between calls: the batch numbers increase along it, none exceeds the counter, only the last
  batch can be open, and an open batch carries the counter's value.
\<close>

definition batch_open :: "Scheduler \<Rightarrow> bool" where
  "batch_open s = (batches s \<noteq> [] \<and> \<not> readyToSchedule (last (batches s)))"

definition queue_inv :: "Scheduler \<Rightarrow> bool" where
  "queue_inv s =
     (sorted_wrt (<) (map batch_clientBatchNumber (batches s))
      \<and> list_all (\<lambda>b. batch_clientBatchNumber b \<le> clientBatchNumber s) (batches s)
      \<and> list_all readyToSchedule (butlast (batches s))
      \<and> (batch_open s \<longrightarrow> batch_clientBatchNumber (last (batches s)) = clientBatchNumber s))"


text \<open>A job and a job store for concrete runs.\<close>

definition example_job :: Job where
  "example_job = \<lparr>nextProgressPoint = id, opTypeIndex = 7, progress = 0, maxProgress = 5,
     indivisible = False, cmpId = 0\<rparr>"

definition example_store :: "nat \<Rightarrow> Job" where
  "example_store = (\<lambda>j. example_job)"





text \<open>\<open>jobs_static s s'\<close>: from \<open>s\<close> to \<open>s'\<close> no job changed in anything but its progress.\<close>

definition jobs_static :: "Scheduler \<Rightarrow> Scheduler \<Rightarrow> bool" where
  "jobs_static s s' = (\<forall>k. \<exists>p. jobStore s' k = (jobStore s k)\<lparr>progress := p\<rparr>)"









subsection \<open>Links: kernel calls, binary search, running totals\<close>

text \<open>
  A link iteration calls the kernel as \<open>k(Ni, Ei, ni, ei, edgeInfo)\<close>: near node, near edge,
  far node, far edge, edge information. The model of an iteration is the list of its calls, in
  order. \<open>edge_tuple\<close> is the tuple \<open>(near_node_ix, far_node_ix, near_edge_ix, edge_info)\<close> that
  the claims (and the repository's test collector) keep of a call.
\<close>

type_synonym kernel_call = "nat \<times> nat \<times> nat \<times> nat \<times> nat"

definition edge_tuple :: "kernel_call \<Rightarrow> nat \<times> nat \<times> nat \<times> nat" where
  "edge_tuple c = (case c of (Ni, Ei, ni, ei, edgeInfo) \<Rightarrow> (Ni, ni, Ei, edgeInfo))"

text \<open>
  \<open>std::lower_bound(arr.begin(), arr.end(), val) - arr.begin()\<close>, as the standard library
  computes it: a binary search over the index range \<open>[first, first + len)\<close>.
\<close>

function lower_bound_from :: "nat list \<Rightarrow> nat \<Rightarrow> nat \<Rightarrow> nat \<Rightarrow> nat" where
  "lower_bound_from arr val first len =
     (if len = 0 then first
      else let half = len div 2; middle = first + half
           in if arr ! middle < val
              then lower_bound_from arr val (middle + 1) (len - half - 1)
              else lower_bound_from arr val first half)"
  by pat_completeness auto
termination
  by (relation "measure (\<lambda>(arr, val, first, len). len)") auto

declare lower_bound_from.simps [simp del]

definition lower_bound :: "nat list \<Rightarrow> nat \<Rightarrow> nat" where
  "lower_bound arr val = lower_bound_from arr val 0 (length arr)"

text \<open>
  The running-total loops (\<open>tmp = v[i]; v[i] += cumulative; cumulative += tmp\<close> and
  \<open>count += adjacency[i].size(); counts[i] = count\<close>): entry \<open>i\<close> becomes the sum of the entries up
  to and including \<open>i\<close>, on top of the start value.
\<close>

fun cumulate :: "nat \<Rightarrow> nat list \<Rightarrow> nat list" where
  "cumulate c [] = []"
| "cumulate c (x # xs) = (x + c) # cumulate (c + x) xs"

subsection \<open>SameLink\<close>

record SameLink =
  same_dim0 :: "nat list"
  same_dim1 :: "nat list"

definition Same_maxProgress :: "SameLink \<Rightarrow> nat \<Rightarrow> nat" where
  "Same_maxProgress l whichEnd = flat_size (same_dim0 l)"

definition Same_requestPartialProgress :: "SameLink \<Rightarrow> nat \<Rightarrow> nat \<Rightarrow> nat" where
  "Same_requestPartialProgress l whichEnd requestedProgress = requestedProgress"

definition Same_iterate :: "SameLink \<Rightarrow> nat \<Rightarrow> nat \<Rightarrow> nat \<Rightarrow> kernel_call list" where
  "Same_iterate l whichEnd start end' = map (\<lambda>i. (i, i, i, i, 0)) [start..<end']"

subsection \<open>DenseLink: iteration\<close>

text \<open>
  \<open>DenseLink::operator()\<close>: the inner loop over the far nodes \<open>j\<close> carries \<open>vNlink\<close> (which runs on
  from one near node to the next) and \<open>vFlink\<close> (restarted at \<open>i\<close> for every near node \<open>i\<close>).
\<close>

definition Dense_inner :: "nat \<Rightarrow> nat \<Rightarrow> kernel_call list \<times> nat \<Rightarrow> nat \<Rightarrow> kernel_call list \<times> nat" where
  "Dense_inner vNsize vFsize st i =
     fst (foldl (\<lambda>((acc, vNlink), vFlink) j.
                   ((acc @ [(i, vNlink, j, vFlink, j)], vNlink + 1), vFlink + vNsize))
                (st, i) [0..<vFsize])"

definition Dense_iterate :: "DenseLink \<Rightarrow> nat \<Rightarrow> nat \<Rightarrow> nat \<Rightarrow> kernel_call list" where
  "Dense_iterate l whichEnd start end' =
     (let dimN = (if whichEnd = 0 then dim0 l else dim1 l);
          dimF = (if whichEnd = 0 then dim1 l else dim0 l);
          vNsize = flat_size dimN;
          vFsize = flat_size dimF
      in fst (foldl (Dense_inner vNsize vFsize) ([], start) [start div vFsize..<end' div vFsize]))"

subsection \<open>GeneralLocal2DLink\<close>

text \<open>
  The configured parameters, the \<open>dirty\<close> flag and the two cumulative row-size vectors. The link
  data arrays, which \<open>initialize\<close> only resizes, are left out.
\<close>

record GeneralLocal2DLink =
  startRow :: int
  startCol :: int
  filterRows :: nat
  filterCols :: nat
  strideRows :: nat
  strideCols :: nat
  atrousRows :: nat
  atrousCols :: nat
  end1rows :: nat
  end1cols :: nat
  end1depth :: nat
  end0rows :: nat
  end0cols :: nat
  end0depth :: nat
  dirty :: bool
  cumulativeEnd0RowSizes :: "nat list"
  cumulativeEnd1RowSizes :: "nat list"

text \<open>
  \<open>RowRowIteration\<close>. \<open>depth_loop\<close> is the pair of loops over the depths \<open>i\<close> and \<open>j\<close>, with the
  running \<open>edgeIx\<close>. \<open>filter_col_step\<close> is one pass of the loop over \<open>end0col\<close>; that loop runs from
  \<open>curLeftSideFilter\<close> in steps of \<open>atrousCols\<close> up to \<open>curLeftSideFilter + filterCols * atrousCols\<close>,
  so pass number \<open>fc\<close> (of \<open>filterCols\<close> passes, or of none when \<open>atrousCols\<close> is 0) has
  \<open>end0col = curLeftSideFilter + fc * atrousCols\<close>; it carries \<open>edgeIx\<close> and \<open>edgeInfo\<close>.
  \<open>end1col_step\<close> is one pass of the loop over \<open>end1col\<close>, carrying \<open>edgeIx\<close> and
  \<open>curLeftSideFilter\<close>.
\<close>

definition depth_loop ::
  "GeneralLocal2DLink \<Rightarrow> nat \<Rightarrow> nat \<Rightarrow> nat \<Rightarrow> bool \<Rightarrow> kernel_call list \<times> nat \<Rightarrow> kernel_call list \<times> nat" where
  "depth_loop l end0BaseDepthIx end1BaseDepthIx edgeInfo end1 st =
     foldl (\<lambda>(acc, edgeIx) (i, j).
              let end0ix = end0BaseDepthIx + j; end1ix = end1BaseDepthIx + i
              in (acc @ [if end1 then (end1ix, edgeIx, end0ix, edgeIx, edgeInfo)
                         else (end0ix, edgeIx, end1ix, edgeIx, edgeInfo)],
                  edgeIx + 1))
           st (List.product [0..<end1depth l] [0..<end0depth l])"

definition filter_col_step ::
  "GeneralLocal2DLink \<Rightarrow> nat \<Rightarrow> nat \<Rightarrow> nat \<Rightarrow> int \<Rightarrow> bool
     \<Rightarrow> kernel_call list \<times> nat \<times> nat \<Rightarrow> nat \<Rightarrow> kernel_call list \<times> nat \<times> nat" where
  "filter_col_step l end0BaseRowIx end1BaseRowIx end1col curLeftSideFilter end1 st fc =
     (case st of (acc, edgeIx, edgeInfo) \<Rightarrow>
        let end0col = curLeftSideFilter + int (fc * atrousCols l) in
        if end0col < 0 \<or> end0col \<ge> int (end0cols l)
        then (acc, edgeIx + end0depth l * end1depth l, edgeInfo + 1)
        else let end0BaseDepthIx = end0BaseRowIx + nat end0col * end0depth l;
                 end1BaseDepthIx = end1BaseRowIx + end1col * end1depth l
             in case depth_loop l end0BaseDepthIx end1BaseDepthIx edgeInfo end1 (acc, edgeIx) of
                  (acc', edgeIx') \<Rightarrow> (acc', edgeIx', edgeInfo + 1))"

definition filter_col_passes :: "GeneralLocal2DLink \<Rightarrow> nat list" where
  "filter_col_passes l = (if atrousCols l = 0 then [] else [0..<filterCols l])"

definition end1col_step ::
  "GeneralLocal2DLink \<Rightarrow> nat \<Rightarrow> nat \<Rightarrow> nat \<Rightarrow> bool
     \<Rightarrow> kernel_call list \<times> nat \<times> int \<Rightarrow> nat \<Rightarrow> kernel_call list \<times> nat \<times> int" where
  "end1col_step l end0BaseRowIx end1BaseRowIx edgeInfoStart end1 st end1col =
     (case st of (acc, edgeIx, curLeftSideFilter) \<Rightarrow>
        case foldl (filter_col_step l end0BaseRowIx end1BaseRowIx end1col curLeftSideFilter end1)
                   (acc, edgeIx, edgeInfoStart) (filter_col_passes l) of
          (acc', edgeIx', edgeInfo') \<Rightarrow> (acc', edgeIx', curLeftSideFilter + int (strideCols l)))"

definition RowRowIteration :: "GeneralLocal2DLink \<Rightarrow> nat \<Rightarrow> nat \<Rightarrow> bool \<Rightarrow> kernel_call list" where
  "RowRowIteration l filterRow end1row end1 =
     (let end0row = int (end1row * strideRows l + filterRow * atrousRows l) + startRow l in
      if end0row < 0 \<or> end0row \<ge> int (end0rows l) then []
      else
        let edgeInfoStart = filterRow * filterCols l;
            end0BaseRowIx = nat end0row * end0cols l * end0depth l;
            end1BaseRowIx = end1row * end1cols l * end1depth l;
            edgeIx = end1row * (end1cols l * filterRows l * filterCols l * end0depth l * end1depth l)
                     + filterRow * (end1cols l * filterCols l * end1depth l * end0depth l)
        in fst (foldl (end1col_step l end0BaseRowIx end1BaseRowIx edgeInfoStart end1)
                      ([], edgeIx, startCol l) [0..<end1cols l]))"

text \<open>
  \<open>RowFindingIteration\<close>: the end-1 row range from the two rounded quotients, then every pair of
  an end-1 row and a filter row whose end-0 row lies in \<open>[end0row_start, end0row_end)\<close>.
\<close>

definition RowFindingIteration :: "GeneralLocal2DLink \<Rightarrow> nat \<Rightarrow> nat \<Rightarrow> kernel_call list" where
  "RowFindingIteration l end0row_start end0row_end =
     (let end1row_start_signed =
            div_round_neginf (int end0row_start - startRow l - int (filterRows l * atrousRows l))
                             (int (strideRows l));
          end1row_start0 = (if end1row_start_signed < 0 then 0 else nat end1row_start_signed);
          end1row_start = min end1row_start0 (end1rows l - 1);
          end1row_end_signed = div_round_posinf (int end0row_end - startRow l) (int (strideRows l));
          end1row_end0 = (if end1row_end_signed < 0 then 0 else nat end1row_end_signed);
          end1row_end = min end1row_end0 (end1rows l)
      in concat (map (\<lambda>(end1row, filterRow).
                   let end0row = int (end1row * strideRows l + filterRow * atrousRows l) + startRow l
                   in if end0row \<ge> int end0row_start \<and> end0row < int end0row_end
                      then RowRowIteration l filterRow end1row False else [])
                 (List.product [end1row_start..<end1row_end] [0..<filterRows l])))"

text \<open>
  \<open>initialize\<close>: \<open>row_size_step\<close> is the body of the double loop over the end-1 rows and the
  filter rows; it carries the two vectors of row sizes and \<open>rowrowsize\<close>, which is counted by a
  run of \<open>RowRowIteration\<close> as long as it is 0.
\<close>

definition row_size_step ::
  "GeneralLocal2DLink \<Rightarrow> nat list \<times> nat list \<times> nat \<Rightarrow> nat \<times> nat \<Rightarrow> nat list \<times> nat list \<times> nat" where
  "row_size_step l st p =
     (case st of (sizes0, sizes1, rowrowsize) \<Rightarrow>
      case p of (end1row, filterRow) \<Rightarrow>
        let end0row = int (end1row * strideRows l) + startRow l + int (filterRow * atrousRows l) in
        if end0row \<ge> 0 \<and> end0row < int (end0rows l) then
          let rowrowsize' = (if rowrowsize = 0
                             then length (RowRowIteration l filterRow end1row True) else rowrowsize)
          in (sizes0[nat end0row := sizes0 ! nat end0row + rowrowsize'],
              sizes1[end1row := sizes1 ! end1row + rowrowsize'],
              rowrowsize')
        else (sizes0, sizes1, rowrowsize))"

definition GeneralLocal2D_initialize :: "GeneralLocal2DLink \<Rightarrow> GeneralLocal2DLink" where
  "GeneralLocal2D_initialize l =
     (if \<not> dirty l then l
      else if end1rows l = 0 \<or> filterRows l = 0 then l
      else case foldl (row_size_step l)
                  (replicate (end0rows l) 0, replicate (end1rows l) 0, 0)
                  (List.product [0..<end1rows l] [0..<filterRows l]) of
        (sizes0, sizes1, rowrowsize) \<Rightarrow>
          l\<lparr>cumulativeEnd1RowSizes := cumulate 0 sizes1,
            cumulativeEnd0RowSizes := cumulate 0 sizes0,
            dirty := False\<rparr>)"

definition setParams ::
  "GeneralLocal2DLink \<Rightarrow> int \<Rightarrow> int \<Rightarrow> nat \<Rightarrow> nat \<Rightarrow> nat \<Rightarrow> nat \<Rightarrow> nat \<Rightarrow> nat \<Rightarrow> GeneralLocal2DLink" where
  "setParams l startRow' startCol' filterRows' filterCols' strideRows' strideCols' atrousRows' atrousCols' =
     GeneralLocal2D_initialize
       (l\<lparr>startRow := startRow', startCol := startCol', filterRows := filterRows',
          filterCols := filterCols', strideRows := strideRows', strideCols := strideCols',
          atrousRows := atrousRows', atrousCols := atrousCols', dirty := True\<rparr>)"



text \<open>
  \<open>operator()\<close>: it tests \<open>whichEnd == 1\<close> and takes every other value as end 0. The end of the
  row range is the position after the one \<open>lower_bound\<close> finds for \<open>end\<close>.
\<close>

definition GeneralLocal2D_iterate :: "GeneralLocal2DLink \<Rightarrow> nat \<Rightarrow> nat \<Rightarrow> nat \<Rightarrow> kernel_call list" where
  "GeneralLocal2D_iterate l whichEnd start end' =
     (if whichEnd = 1 then
        let end1row_start = lower_bound (cumulativeEnd1RowSizes l) (start + 1);
            end1row_end = lower_bound (cumulativeEnd1RowSizes l) end' + 1
        in concat (map (\<lambda>(end1row, filterRow). RowRowIteration l filterRow end1row True)
                     (List.product [end1row_start..<end1row_end] [0..<filterRows l]))
      else
        let end0row_start = lower_bound (cumulativeEnd0RowSizes l) (start + 1);
            end0row_end = lower_bound (cumulativeEnd0RowSizes l) end' + 1
        in RowFindingIteration l end0row_start end0row_end)"

text \<open>
  A configured and initialized link: both ends have rows, the filter has rows, the row stride
  is positive (the source divides by it), and the cumulative vectors are those that
  \<open>initialize\<close> computes from the parameters.
\<close>

definition GeneralLocal2D_valid :: "GeneralLocal2DLink \<Rightarrow> bool" where
  "GeneralLocal2D_valid l =
     (0 < end0rows l \<and> 0 < end1rows l \<and> 0 < filterRows l \<and> 0 < strideRows l
      \<and> GeneralLocal2D_initialize (l\<lparr>dirty := True\<rparr>) = l)"


subsection \<open>AdjListLink\<close>

text \<open>
  A \<open>NeighborIndices\<close> is the pair of \<open>edgeIx\<close> and \<open>farNode\<close>. The edge data of an end is the
  tensor \<open>setLinkData\<close> points the link to: its \<open>noData\<close> flag and its vector of values, whose
  element type is left abstract as a number with \<open>T() = 0\<close>. \<open>VariantVectorWrapper::apply\<close> does
  nothing on a tensor without data.
\<close>

type_synonym NeighborIndices = "nat \<times> nat"

abbreviation (input) edgeIx :: "NeighborIndices \<Rightarrow> nat" where
  "edgeIx \<equiv> fst"

abbreviation (input) farNode :: "NeighborIndices \<Rightarrow> nat" where
  "farNode \<equiv> snd"

record AdjListLink =
  adj_dim0 :: "nat list"
  adj_dim1 :: "nat list"
  end0Adjacency :: "NeighborIndices list list"
  end1Adjacency :: "NeighborIndices list list"
  edgeIxBound :: nat
  end0CumulativeEdgeCounts :: "nat list"
  end1CumulativeEdgeCounts :: "nat list"
  adj_dirty :: bool
  destructedStatus :: "bool list"
  end0NoData :: bool
  end0Values :: "nat list"
  end1NoData :: bool
  end1Values :: "nat list"

definition resize :: "'a \<Rightarrow> nat \<Rightarrow> 'a list \<Rightarrow> 'a list" where
  "resize d n xs = take n xs @ replicate (n - length xs) d"

definition apply_resize :: "bool \<Rightarrow> nat \<Rightarrow> nat list \<Rightarrow> nat list" where
  "apply_resize nodata n vals = (if nodata then vals else resize 0 n vals)"

definition apply_refreshIndex :: "bool \<Rightarrow> nat \<Rightarrow> nat list \<Rightarrow> error + nat list" where
  "apply_refreshIndex nodata index vals =
     (if nodata then Inr vals
      else if index < length vals then Inr (vals[index := 0]) else Inl OutOfRange)"

definition AdjList_new :: "bool \<Rightarrow> bool \<Rightarrow> AdjListLink" where
  "AdjList_new nodata0 nodata1 =
     \<lparr>adj_dim0 = [], adj_dim1 = [], end0Adjacency = [], end1Adjacency = [], edgeIxBound = 0,
      end0CumulativeEdgeCounts = [], end1CumulativeEdgeCounts = [], adj_dirty = False,
      destructedStatus = [], end0NoData = nodata0, end0Values = [],
      end1NoData = nodata1, end1Values = []\<rparr>"

definition AdjList_setDimensions :: "AdjListLink \<Rightarrow> nat list \<Rightarrow> nat list \<Rightarrow> AdjListLink" where
  "AdjList_setDimensions l dim0' dim1' =
     l\<lparr>adj_dim0 := dim0', adj_dim1 := dim1',
       end0Adjacency := resize [] (flat_size dim0') (end0Adjacency l),
       end1Adjacency := resize [] (flat_size dim1') (end1Adjacency l)\<rparr>"

definition resetCumulativeEdgeCounts :: "AdjListLink \<Rightarrow> AdjListLink" where
  "resetCumulativeEdgeCounts l =
     (if \<not> adj_dirty l then l
      else l\<lparr>end0CumulativeEdgeCounts := cumulate 0 (map length (end0Adjacency l)),
             end1CumulativeEdgeCounts := cumulate 0 (map length (end1Adjacency l)),
             adj_dirty := False\<rparr>)"

text \<open>
  \<open>insertEdges\<close>: \<open>insert_pairs\<close> is the loop over the pairs. The two \<open>at\<close> are evaluated one
  after the other, each followed by its \<open>push_back\<close>, so the second can throw after the first
  entry has been appended. An exception leaves the loop with the state reached so far; the
  resizing of the edge data and of \<open>destructedStatus\<close> and the setting of \<open>dirty\<close> follow the loop.
\<close>

definition push_end0 :: "AdjListLink \<Rightarrow> nat \<Rightarrow> nat \<Rightarrow> AdjListLink" where
  "push_end0 l end0ix end1ix =
     l\<lparr>end0Adjacency := (end0Adjacency l)[end0ix := end0Adjacency l ! end0ix @ [(edgeIxBound l, end1ix)]]\<rparr>"

definition push_end1 :: "AdjListLink \<Rightarrow> nat \<Rightarrow> nat \<Rightarrow> AdjListLink" where
  "push_end1 l end0ix end1ix =
     l\<lparr>end1Adjacency := (end1Adjacency l)[end1ix := end1Adjacency l ! end1ix @ [(edgeIxBound l, end0ix)]]\<rparr>"

fun insert_pairs :: "AdjListLink \<Rightarrow> (nat \<times> nat) list \<Rightarrow> error option \<times> AdjListLink" where
  "insert_pairs l [] = (None, l)"
| "insert_pairs l ((end0ix, end1ix) # ps) =
     (if end0ix \<ge> length (end0Adjacency l) then (Some OutOfRange, l)
      else let l1 = push_end0 l end0ix end1ix in
        if end1ix \<ge> length (end1Adjacency l1) then (Some OutOfRange, l1)
        else insert_pairs ((push_end1 l1 end0ix end1ix)\<lparr>edgeIxBound := edgeIxBound l1 + 1\<rparr>) ps)"

definition insertEdges :: "AdjListLink \<Rightarrow> (nat \<times> nat) list \<Rightarrow> error option \<times> AdjListLink" where
  "insertEdges l nodeIndices =
     (case insert_pairs l nodeIndices of
        (Some e, l') \<Rightarrow> (Some e, l')
      | (None, l') \<Rightarrow>
          (None, l'\<lparr>end0Values := apply_resize (end0NoData l') (edgeIxBound l') (end0Values l'),
                    end1Values := apply_resize (end1NoData l') (edgeIxBound l') (end1Values l'),
                    destructedStatus := resize False (edgeIxBound l') (destructedStatus l'),
                    adj_dirty := True\<rparr>))"

text \<open>
  \<open>callEdgeDataDestructor\<close>: \<open>refreshIndex\<close> on the data of end 0, then of end 1 (each an \<open>at\<close>,
  which can throw), then the unchecked write \<open>destructedStatus[edgeIx] = true\<close>.
\<close>

definition callEdgeDataDestructor :: "AdjListLink \<Rightarrow> nat \<Rightarrow> error option \<times> AdjListLink" where
  "callEdgeDataDestructor l e =
     (case apply_refreshIndex (end0NoData l) e (end0Values l) of
        Inl err \<Rightarrow> (Some err, l)
      | Inr v0 \<Rightarrow>
         let l1 = l\<lparr>end0Values := v0\<rparr> in
         case apply_refreshIndex (end1NoData l1) e (end1Values l1) of
           Inl err \<Rightarrow> (Some err, l1)
         | Inr v1 \<Rightarrow>
            let l2 = l1\<lparr>end1Values := v1\<rparr> in
            if e < length (destructedStatus l2)
            then (None, l2\<lparr>destructedStatus := (destructedStatus l2)[e := True]\<rparr>)
            else (Some UncheckedAccess, l2))"

text \<open>
  \<open>removeEdges\<close>: \<open>erase_first\<close> is a scan that erases the first entry it finds and stops.
  \<open>remove_pair\<close> is the loop body: both \<open>at\<close> come first, then the scan of the end-0 list (with
  the destructor call for the erased entry), then the scan of the end-1 list.
\<close>

fun erase_first :: "('a \<Rightarrow> bool) \<Rightarrow> 'a list \<Rightarrow> 'a list" where
  "erase_first P [] = []"
| "erase_first P (x # xs) = (if P x then xs else x # erase_first P xs)"

definition remove_pair :: "AdjListLink \<Rightarrow> nat \<times> nat \<Rightarrow> error option \<times> AdjListLink" where
  "remove_pair l p =
     (case p of (end0ix, end1ix) \<Rightarrow>
      if end0ix \<ge> length (end0Adjacency l) then (Some OutOfRange, l)
      else if end1ix \<ge> length (end1Adjacency l) then (Some OutOfRange, l)
      else
        let v0 = end0Adjacency l ! end0ix;
            r = (case find (\<lambda>ixs. farNode ixs = end1ix) v0 of
                   None \<Rightarrow> (None, l)
                 | Some ixs \<Rightarrow>
                     callEdgeDataDestructor
                       (l\<lparr>end0Adjacency :=
                            (end0Adjacency l)[end0ix := erase_first (\<lambda>ixs. farNode ixs = end1ix) v0]\<rparr>)
                       (edgeIx ixs))
        in case r of
             (Some err, l1) \<Rightarrow> (Some err, l1)
           | (None, l1) \<Rightarrow>
               (None, l1\<lparr>end1Adjacency :=
                           (end1Adjacency l1)[end1ix :=
                              erase_first (\<lambda>ixs. farNode ixs = end0ix) (end1Adjacency l1 ! end1ix)]\<rparr>))"

fun remove_pairs :: "AdjListLink \<Rightarrow> (nat \<times> nat) list \<Rightarrow> error option \<times> AdjListLink" where
  "remove_pairs l [] = (None, l)"
| "remove_pairs l (p # ps) =
     (case remove_pair l p of
        (Some err, l') \<Rightarrow> (Some err, l')
      | (None, l') \<Rightarrow> remove_pairs l' ps)"

definition removeEdges :: "AdjListLink \<Rightarrow> (nat \<times> nat) list \<Rightarrow> error option \<times> AdjListLink" where
  "removeEdges l nodeIndices =
     (case remove_pairs l nodeIndices of
        (Some err, l') \<Rightarrow> (Some err, l')
      | (None, l') \<Rightarrow> (None, l'\<lparr>adj_dirty := True\<rparr>))"

definition in_range :: "AdjListLink \<Rightarrow> nat \<times> nat \<Rightarrow> bool" where
  "in_range l p = (fst p < length (end0Adjacency l) \<and> snd p < length (end1Adjacency l))"

text \<open>
  \<open>defragmentEdges\<close>. \<open>partialSums[i]\<close> is the number of edge indices up to \<open>i\<close> that are not
  destructed, \<open>edgeCount\<close> their number below \<open>edgeIxBound\<close>. The reads \<open>destructedStatus[i]\<close> and
  \<open>partialSums[ixs.edgeIx]\<close> are unchecked in the source; the model tests their ranges before the
  loops and reports \<open>UncheckedAccess\<close> otherwise. An entry gets the new index
  \<open>partialSums[edgeIx] - 1\<close>. \<open>dataMover\<close> moves the data of the surviving indices to the front and
  shrinks the vector; its \<open>move\<close> uses \<open>at\<close> on both positions, and the source position \<open>i\<close> is
  below the size by the loop bound. The function leaves \<open>dirty\<close> as it is.
\<close>

definition renumber :: "nat list \<Rightarrow> NeighborIndices list list \<Rightarrow> NeighborIndices list list" where
  "renumber partialSums adj =
     map (map (\<lambda>ixs. (partialSums ! edgeIx ixs - 1, farNode ixs))) adj"

definition move_step :: "nat list \<Rightarrow> error + nat \<times> nat list \<Rightarrow> nat \<Rightarrow> error + nat \<times> nat list" where
  "move_step partialSums st i =
     (case st of
        Inl err \<Rightarrow> Inl err
      | Inr (j, vec) \<Rightarrow>
          if partialSums ! i > j
          then (if partialSums ! i - 1 < length vec
                then Inr (partialSums ! i, vec[partialSums ! i - 1 := vec ! i])
                else Inl OutOfRange)
          else Inr (j, vec))"

definition dataMover :: "nat list \<Rightarrow> nat \<Rightarrow> bool \<Rightarrow> nat list \<Rightarrow> error + nat list" where
  "dataMover partialSums edgeCount nodata vals =
     (if nodata then Inr vals
      else if length partialSums < length vals then Inl UncheckedAccess
      else case foldl (move_step partialSums) (Inr (0, vals)) [0..<length vals] of
             Inl err \<Rightarrow> Inl err
           | Inr (j, vec) \<Rightarrow> Inr (resize 0 edgeCount vec))"

definition edges_below :: "nat \<Rightarrow> NeighborIndices list list \<Rightarrow> bool" where
  "edges_below n adj = list_all (list_all (\<lambda>ixs. edgeIx ixs < n)) adj"

definition defragmentEdges :: "AdjListLink \<Rightarrow> error option \<times> AdjListLink" where
  "defragmentEdges l =
     (if length (destructedStatus l) < edgeIxBound l then (Some UncheckedAccess, l)
      else
        let live = map (\<lambda>d. if d then 0 else 1) (take (edgeIxBound l) (destructedStatus l));
            partialSums = cumulate 0 live;
            edgeCount = sum_list live
        in if \<not> edges_below (edgeIxBound l) (end0Adjacency l) then (Some UncheckedAccess, l)
           else
             let l1 = l\<lparr>end0Adjacency := renumber partialSums (end0Adjacency l)\<rparr> in
             if \<not> edges_below (edgeIxBound l) (end1Adjacency l1) then (Some UncheckedAccess, l1)
             else
               let l2 = l1\<lparr>end1Adjacency := renumber partialSums (end1Adjacency l1),
                          edgeIxBound := edgeCount\<rparr> in
               case dataMover partialSums edgeCount (end0NoData l2) (end0Values l2) of
                 Inl err \<Rightarrow> (Some err, l2)
               | Inr v0 \<Rightarrow>
                   let l3 = l2\<lparr>end0Values := v0\<rparr> in
                   case dataMover partialSums edgeCount (end1NoData l3) (end1Values l3) of
                     Inl err \<Rightarrow> (Some err, l3)
                   | Inr v1 \<Rightarrow>
                       (None, l3\<lparr>end1Values := v1,
                                 destructedStatus := replicate edgeCount False\<rparr>))"

text \<open>
  \<open>maxProgress\<close> and \<open>requestPartialProgress\<close> refresh the cumulative counts first, so they
  return the link as well. \<open>maxProgress\<close> reads the end-0 counts whatever the end.
\<close>

definition AdjList_maxProgress :: "AdjListLink \<Rightarrow> nat \<Rightarrow> nat \<times> AdjListLink" where
  "AdjList_maxProgress l whichEnd =
     (let l' = resetCumulativeEdgeCounts l in
      (if end0CumulativeEdgeCounts l' = [] then 0 else last (end0CumulativeEdgeCounts l'), l'))"

definition AdjList_requestPartialProgress :: "AdjListLink \<Rightarrow> nat \<Rightarrow> nat \<Rightarrow> nat \<times> AdjListLink" where
  "AdjList_requestPartialProgress l whichEnd requestedProgress =
     (let l' = resetCumulativeEdgeCounts l;
          arr = (if whichEnd = 0 then end0CumulativeEdgeCounts l' else end1CumulativeEdgeCounts l')
      in if arr = [] then (0, l')
         else let result = lower_bound arr requestedProgress
              in (if result = length arr then last arr else arr ! result, l'))"

text \<open>
  \<open>operator()\<close>: \<open>AdjList_rows\<close> is the \<open>while\<close> loop over the nodes from \<open>ix\<close> on, given the
  adjacency lists that remain; it stops at the first node whose edges would take the progress
  beyond \<open>end\<close>. The edge information \<open>f\<close> of a call is the position of the entry in its list.
\<close>

definition node_calls :: "nat \<Rightarrow> NeighborIndices list \<Rightarrow> kernel_call list" where
  "node_calls ix row =
     map (\<lambda>(f, ixs). (ix, edgeIx ixs, farNode ixs, edgeIx ixs, f)) (zip [0..<length row] row)"

fun AdjList_rows :: "nat \<Rightarrow> nat \<Rightarrow> nat \<Rightarrow> NeighborIndices list list \<Rightarrow> kernel_call list" where
  "AdjList_rows end' ix prog [] = []"
| "AdjList_rows end' ix prog (row # rows) =
     (let prog' = prog + length row in
      if prog' > end' then []
      else node_calls ix row @ AdjList_rows end' (ix + 1) prog' rows)"

definition AdjList_iterate :: "AdjListLink \<Rightarrow> nat \<Rightarrow> nat \<Rightarrow> nat \<Rightarrow> kernel_call list" where
  "AdjList_iterate l whichEnd start end' =
     (let adj = (if whichEnd = 0 then end0Adjacency l else end1Adjacency l);
          arr = (if whichEnd = 0 then end0CumulativeEdgeCounts l else end1CumulativeEdgeCounts l);
          ix = lower_bound arr (start + 1)
      in AdjList_rows end' ix start (drop ix adj))"

text \<open>Sequences of edge operations on a link.\<close>

datatype adj_op = InsertEdges "(nat \<times> nat) list" | RemoveEdges "(nat \<times> nat) list" | DefragmentEdges

fun adj_step :: "AdjListLink \<Rightarrow> adj_op \<Rightarrow> error option \<times> AdjListLink" where
  "adj_step l (InsertEdges ps) = insertEdges l ps"
| "adj_step l (RemoveEdges ps) = removeEdges l ps"
| "adj_step l DefragmentEdges = defragmentEdges l"

fun adj_run :: "AdjListLink \<Rightarrow> adj_op list \<Rightarrow> error option \<times> AdjListLink" where
  "adj_run l [] = (None, l)"
| "adj_run l (x # xs) =
     (case adj_step l x of
        (Some err, l') \<Rightarrow> (Some err, l')
      | (None, l') \<Rightarrow> adj_run l' xs)"

fun op_in_range :: "nat \<Rightarrow> nat \<Rightarrow> adj_op \<Rightarrow> bool" where
  "op_in_range n0 n1 (InsertEdges ps) = list_all (\<lambda>p. fst p < n0 \<and> snd p < n1) ps"
| "op_in_range n0 n1 (RemoveEdges ps) = list_all (\<lambda>p. fst p < n0 \<and> snd p < n1) ps"
| "op_in_range n0 n1 DefragmentEdges = True"

definition total_count :: "nat list \<Rightarrow> nat" where
  "total_count counts = (if counts = [] then 0 else last counts)"

text \<open>A link between two components of one node each, for evaluation.\<close>

definition adj_example :: AdjListLink where
  "adj_example = AdjList_setDimensions (AdjList_new False False) [1] [1]"

section \<open>Rounding of signed quotients\<close>

lemma flat_size_foldl: "foldl (\<lambda>acc x. acc * x) a d = a * prod_list d"
  by (induction d arbitrary: a) (simp_all add: mult.assoc)

lemma flat_size_prod_list: "flat_size d = prod_list d"
  by (simp add: flat_size_def flat_size_foldl)

lemma div_round_neginf_floor:
  assumes "0 < b"
  shows "div_round_neginf a b = a div b"
proof -
  have "a mod b \<noteq> b" using assms pos_mod_bound[of b a] by linarith
  then show ?thesis
    unfolding div_round_neginf_def using assms
    by (auto simp add: signed_divide_int_eq_divide_int signed_modulo_int_eq_modulo_int
        sgn_if dvd_eq_mod_eq_0)
qed

lemma div_round_posinf_nonneg:
  assumes "0 < b" "0 \<le> a"
  shows "div_round_posinf a b = - ((- a) div b)"
  unfolding div_round_posinf_def using assms
  by (auto simp add: signed_divide_int_eq_divide_int signed_modulo_int_eq_modulo_int
      sgn_if dvd_eq_mod_eq_0 zdiv_zminus1_eq_if)

lemma div_round_posinf_ge:
  assumes "0 < b"
  shows "- ((- a) div b) \<le> div_round_posinf a b"
  unfolding div_round_posinf_def using assms
  by (auto simp add: signed_divide_int_eq_divide_int signed_modulo_int_eq_modulo_int
      sgn_if dvd_eq_mod_eq_0 zdiv_zminus1_eq_if)

text \<open>
  C6 (code defect). \<open>div_round_posinf\<close> is documented as rounding \<open>a/b\<close> towards plus infinity
  for a numerator of either sign. For the negative numerator \<open>-3\<close> and denominator \<open>2\<close> the
  truncated quotient \<open>-1\<close> already is the ceiling of \<open>-3/2\<close>, yet the function adds one and
  returns \<open>0\<close>. \<open>div_round_neginf\<close> does return the floor at the same input.
\<close>

theorem div_round_posinf_negative_numerator:
  "div_round_posinf (-3) 2 = 0 \<and> \<lceil>(-3 :: real) / 2\<rceil> = -1
   \<and> div_round_neginf (-3) 2 = \<lfloor>(-3 :: real) / 2\<rfloor>"
proof -
  have "\<lceil>(-3 :: real) / 2\<rceil> = -1" by (simp add: ceiling_eq_iff)
  moreover have "\<lfloor>(-3 :: real) / 2\<rfloor> = -2" by (simp add: floor_eq_iff)
  moreover have "div_round_posinf (-3) 2 = 0"
    by (simp add: div_round_posinf_def signed_divide_int_def signed_modulo_int_def)
  moreover have "div_round_neginf (-3) 2 = -2"
    by (simp add: div_round_neginf_def signed_divide_int_def signed_modulo_int_def)
  ultimately show ?thesis by simp
qed

section \<open>Dense link: the next progress point\<close>





section \<open>Client batch numbers\<close>

lemma processOp_new:
  assumes "\<not> batch_open s"
  shows "processOp s jb e b =
    (clientBatchNumber s + 1,
     s\<lparr>batches := batches s @
         [\<lparr>batch_clientBatchNumber = clientBatchNumber s + 1, batch_jobs = [jb\<lparr>progress := 0\<rparr>],
           readyToSchedule = (e \<or> b), scheduled = False\<rparr>],
       clientBatchNumber := clientBatchNumber s + 1\<rparr>)"
  using assms by (auto simp: processOp_def Let_def batch_open_def)

lemma processOp_open:
  assumes "batch_open s"
  shows "processOp s jb e b =
    (batch_clientBatchNumber (last (batches s)),
     s\<lparr>batches := butlast (batches s) @
         [(last (batches s))\<lparr>batch_jobs := batch_jobs (last (batches s)) @ [jb\<lparr>progress := 0\<rparr>],
           readyToSchedule := (e \<or> b)\<rparr>]\<rparr>)"
  using assms by (auto simp: processOp_def Let_def batch_open_def)

lemma processOp_step:
  assumes "queue_inv s" "processOp s jb e b = (n, s1)"
  shows "queue_inv s1 \<and> n = clientBatchNumber s1
    \<and> clientBatchNumber s1 = (if batch_open s then clientBatchNumber s else clientBatchNumber s + 1)
    \<and> batch_open s1 = (\<not> (e \<or> b))"
proof (cases "batch_open s")
  case True
  then obtain bs l where bs: "batches s = bs @ [l]"
    by (metis batch_open_def append_butlast_last_id)
  from True assms show ?thesis
    unfolding processOp_open[OF True]
    by (auto simp: queue_inv_def batch_open_def bs sorted_wrt_append)
next
  case False
  have "list_all readyToSchedule (batches s)"
  proof (cases "batches s = []")
    case True then show ?thesis by simp
  next
    case ne: False
    then obtain bs l where bs: "batches s = bs @ [l]"
      by (metis append_butlast_last_id)
    with False assms(1) show ?thesis by (auto simp: queue_inv_def batch_open_def)
  qed
  with False assms show ?thesis
    unfolding processOp_new[OF False]
    by (auto simp: queue_inv_def batch_open_def sorted_wrt_append list_all_iff
        less_Suc_eq_le le_Suc_eq)
qed

lemma cleanup_step:
  assumes "queue_inv s" "list_ex (\<lambda>b. batch_clientBatchNumber b = n \<and> readyToSchedule b) (batches s)"
  shows "queue_inv (cleanup_batches n s) \<and> clientBatchNumber (cleanup_batches n s) = clientBatchNumber s
    \<and> batch_open (cleanup_batches n s) = batch_open s"
proof (cases "batch_open s")
  case True
  then obtain bs l where bs: "batches s = bs @ [l]"
    by (metis batch_open_def append_butlast_last_id)
  from True bs have l: "\<not> readyToSchedule l" by (simp add: batch_open_def)
  from assms(2) l obtain b where b: "b \<in> set bs" "batch_clientBatchNumber b = n"
    by (auto simp: list_ex_iff bs)
  with assms(1) have nl: "n < batch_clientBatchNumber l"
    by (auto simp: queue_inv_def bs sorted_wrt_append)
  then have keep: "filter (\<lambda>b. \<not> batch_clientBatchNumber b \<le> n) (batches s)
      = filter (\<lambda>b. \<not> batch_clientBatchNumber b \<le> n) bs @ [l]"
    by (simp add: bs)
  from assms(1) True l nl show ?thesis
    unfolding cleanup_batches_def
    by (auto simp: queue_inv_def batch_open_def bs sorted_wrt_append sorted_wrt_filter
         sorted_wrt_map list_all_iff)
next
  case False
  have all: "list_all readyToSchedule (batches s)"
  proof (cases "batches s = []")
    case True then show ?thesis by simp
  next
    case ne: False
    then obtain bs l where bs: "batches s = bs @ [l]"
      by (metis append_butlast_last_id)
    with False assms(1) show ?thesis by (auto simp: queue_inv_def batch_open_def)
  qed
  have "\<not> batch_open (cleanup_batches n s)"
  proof -
    let ?f = "filter (\<lambda>b. \<not> batch_clientBatchNumber b \<le> n) (batches s)"
    have "readyToSchedule (last ?f)" if "?f \<noteq> []"
    proof -
      from that have "last ?f \<in> set ?f" by (rule last_in_set)
      then have "last ?f \<in> set (batches s)" by simp
      with all show ?thesis by (simp add: list_all_iff)
    qed
    then show ?thesis unfolding batch_open_def cleanup_batches_def by auto
  qed
  moreover have "list_all readyToSchedule (butlast (filter (\<lambda>b. \<not> batch_clientBatchNumber b \<le> n) (batches s)))"
    using all by (auto simp: list_all_iff dest: in_set_butlastD)
  ultimately show ?thesis using assms(1) False
    unfolding cleanup_batches_def
    by (auto simp: queue_inv_def sorted_wrt_filter sorted_wrt_map list_all_iff)
qed

lemma client_run_props:
  "queue_inv s \<Longrightarrow>
   length (client_run s evs) = length (filter is_call evs)
   \<and> (client_run s evs \<noteq> [] \<longrightarrow>
        hd (client_run s evs) = (if batch_open s then clientBatchNumber s else clientBatchNumber s + 1))
   \<and> (\<forall>k. Suc k < length (client_run s evs) \<longrightarrow>
        client_run s evs ! Suc k
          = client_run s evs ! k + (if closes_batch (filter is_call evs ! k) then 1 else 0))"
proof (induction evs arbitrary: s)
  case Nil
  then show ?case by simp
next
  case (Cons ev evs)
  show ?case
  proof (cases ev)
    case (ProcessOp jb e b)
    obtain n s1 where p: "processOp s jb e b = (n, s1)" by (cases "processOp s jb e b")
    note st = processOp_step[OF Cons.prems p]
    from st have inv1: "queue_inv s1" by simp
    note ih = Cons.IH[OF inv1]
    have run: "client_run s (ev # evs) = n # client_run s1 evs"
      by (simp add: ProcessOp p)
    have calls: "filter is_call (ev # evs) = ev # filter is_call evs"
      by (simp add: ProcessOp)
    have hd1: "client_run s1 evs \<noteq> [] \<Longrightarrow> hd (client_run s1 evs) = n + (if e \<or> b then 1 else 0)"
      using ih st by auto
    have nth: "(n # client_run s1 evs) ! Suc k
          = (n # client_run s1 evs) ! k + (if closes_batch ((ev # filter is_call evs) ! k) then 1 else 0)"
      if "Suc k < length (n # client_run s1 evs)" for k
    proof (cases k)
      case 0
      from that have "client_run s1 evs \<noteq> []" unfolding 0 by auto
      from hd1[OF this] this show ?thesis
        by (simp add: 0 ProcessOp hd_conv_nth)
    next
      case (Suc k')
      with that ih show ?thesis by simp
    qed
    have hd0: "hd (n # client_run s1 evs) = (if batch_open s then clientBatchNumber s else clientBatchNumber s + 1)"
      using st by simp
    have len: "length (n # client_run s1 evs) = length (ev # filter is_call evs)"
      using ih by simp
    show ?thesis unfolding run calls using hd0 len nth by blast
  next
    case (BatchCompleted m)
    show ?thesis
    proof (cases "list_ex (\<lambda>b. batch_clientBatchNumber b = m \<and> readyToSchedule b) (batches s)")
      case True
      note st = cleanup_step[OF Cons.prems True]
      from st have inv1: "queue_inv (cleanup_batches m s)" by simp
      from Cons.IH[OF inv1] st show ?thesis by (simp add: BatchCompleted True)
    next
      case False
      with Cons.IH[OF Cons.prems] show ?thesis by (simp add: BatchCompleted)
    qed
  qed
qed

lemma initial_queue_inv: "queue_inv (initial_scheduler n js)"
  by (simp add: queue_inv_def initial_scheduler_def batch_open_def)

text \<open>
  C5 as stated fails: two calls of \<open>processOp\<close> without \<open>endOfBatch\<close> join the same client batch and
  both return its number, and the first batch ever created has number 2 (the counter starts at
  1 and is incremented before it is used).
\<close>

theorem processOp_same_batch_counterexample:
  "client_run (initial_scheduler 2 example_store)
     [ProcessOp example_job False False, ProcessOp example_job False False] = [2, 2]"
  by (simp add: initial_scheduler_def processOp_def Let_def)

text \<open>
  C5 (amended). Starting from a new scheduler, for any sequence of \<open>processOp\<close> calls, with the
  scheduler thread completing and erasing ready batches in between: the returned numbers are
  non-decreasing; the first is 2; each call that follows a call with \<open>endOfBatch\<close> or \<open>blocking\<close>
  returns the previous number plus one, and each call that follows a call with neither returns the
  previous number again.
\<close>

theorem processOp_batch_numbers:
  assumes "rs = client_run (initial_scheduler n js) evs" and "calls = filter is_call evs"
  shows "length rs = length calls
    \<and> (rs \<noteq> [] \<longrightarrow> hd rs = 2)
    \<and> (\<forall>k. Suc k < length rs \<longrightarrow> rs ! Suc k = rs ! k + (if closes_batch (calls ! k) then 1 else 0))
    \<and> sorted rs"
proof -
  note p = client_run_props[OF initial_queue_inv, of n js evs]
  have o: "\<not> batch_open (initial_scheduler n js)" "clientBatchNumber (initial_scheduler n js) = 1"
    by (simp_all add: batch_open_def initial_scheduler_def)
  have step: "\<forall>k. Suc k < length rs \<longrightarrow> rs ! Suc k = rs ! k + (if closes_batch (calls ! k) then 1 else 0)"
    using p assms by simp
  then have "\<forall>k. Suc k < length rs \<longrightarrow> rs ! k \<le> rs ! Suc k" by simp
  then have "sorted rs" by (simp add: sorted_iff_nth_Suc)
  with p o step show ?thesis by (simp add: assms)
qed

theorem processOp_batch_numbers_witness:
  "client_run (initial_scheduler 2 example_store)
     [ProcessOp example_job False False, ProcessOp example_job True False, BatchCompleted 2,
      ProcessOp example_job False True] = [2, 2, 3]
   \<and> sorted (client_run (initial_scheduler 2 example_store)
     [ProcessOp example_job False False, ProcessOp example_job True False, BatchCompleted 2,
      ProcessOp example_job False True])"
proof -
  have "client_run (initial_scheduler 2 example_store)
     [ProcessOp example_job False False, ProcessOp example_job True False, BatchCompleted 2,
      ProcessOp example_job False True] = [2, 2, 3]"
    by (simp add: initial_scheduler_def processOp_def Let_def cleanup_batches_def)
  then show ?thesis
    using processOp_batch_numbers[OF refl refl, of 2 example_store
     "[ProcessOp example_job False False, ProcessOp example_job True False, BatchCompleted 2,
      ProcessOp example_job False True]"] by simp
qed

section \<open>Deterministic mode and the timing model\<close>

































section \<open>Planning: the jobs of a barrier\<close>




lemma jobs_static_refl: "jobs_static s s"
  unfolding jobs_static_def by (metis Job.surjective Job.update_convs(3))



lemma jobs_static_same_store: "jobStore s' = jobStore s \<Longrightarrow> jobs_static s s'"
  using jobs_static_refl[of s] by (simp add: jobs_static_def)
















section \<open>Planning: the chunks of a job\<close>























section \<open>Locally connected 2D link: progress points\<close>





lemma cumulate_nth: "i < length xs \<Longrightarrow> cumulate c xs ! i = c + sum_list (take (Suc i) xs)"
proof (induction xs arbitrary: c i)
  case (Cons x xs)
  then show ?case by (cases i) auto
qed simp












section \<open>Adjacency-list link: out-of-range indices and absent edges\<close>

lemma push_end0_lengths [simp]:
  "length (end0Adjacency (push_end0 l a b)) = length (end0Adjacency l)"
  "end1Adjacency (push_end0 l a b) = end1Adjacency l"
  by (simp_all add: push_end0_def)

lemma push_end1_lengths [simp]:
  "length (end1Adjacency (push_end1 l a b)) = length (end1Adjacency l)"
  "end0Adjacency (push_end1 l a b) = end0Adjacency l"
  by (simp_all add: push_end1_def)

lemma insert_pairs_in_range:
  "list_all (in_range l) ps \<Longrightarrow>
     fst (insert_pairs l ps) = None
     \<and> length (end0Adjacency (snd (insert_pairs l ps))) = length (end0Adjacency l)
     \<and> length (end1Adjacency (snd (insert_pairs l ps))) = length (end1Adjacency l)"
proof (induction ps arbitrary: l)
  case (Cons p ps)
  obtain a b where p: "p = (a, b)" by (cases p) auto
  define l' where "l' = (push_end1 (push_end0 l a b) a b)\<lparr>edgeIxBound := edgeIxBound (push_end0 l a b) + 1\<rparr>"
  have len: "length (end0Adjacency l') = length (end0Adjacency l)"
    "length (end1Adjacency l') = length (end1Adjacency l)"
    by (simp_all add: l'_def)
  have "in_range l' = in_range l"
    by (rule ext) (simp add: in_range_def len)
  then have "list_all (in_range l') ps"
    using Cons.prems by simp
  from Cons.IH[OF this] have IH: "fst (insert_pairs l' ps) = None
     \<and> length (end0Adjacency (snd (insert_pairs l' ps))) = length (end0Adjacency l)
     \<and> length (end1Adjacency (snd (insert_pairs l' ps))) = length (end1Adjacency l)"
    by (simp add: len)
  have step: "insert_pairs l (p # ps) = insert_pairs l' ps"
    using Cons.prems by (simp add: p in_range_def Let_def l'_def)
  show ?case unfolding step by (rule IH)
qed simp

lemma insert_pairs_append:
  "fst (insert_pairs l pre) = None \<Longrightarrow>
     insert_pairs l (pre @ ps) = insert_pairs (snd (insert_pairs l pre)) ps"
proof (induction pre arbitrary: l)
  case (Cons p pre)
  obtain a b where p: "p = (a, b)" by (cases p) auto
  show ?case using Cons.prems Cons.IH
    by (auto simp: p Let_def split: if_splits)
qed simp

lemma remove_pairs_append:
  "remove_pairs l (pre @ ps) =
     (if fst (remove_pairs l pre) = None then remove_pairs (snd (remove_pairs l pre)) ps
      else remove_pairs l pre)"
proof (induction pre arbitrary: l)
  case (Cons p pre)
  show ?case using Cons.IH
    by (cases "remove_pair l p") (auto split: option.splits)
qed simp

lemma callEdgeDataDestructor_adjacency:
  "end0Adjacency (snd (callEdgeDataDestructor l e)) = end0Adjacency l
   \<and> end1Adjacency (snd (callEdgeDataDestructor l e)) = end1Adjacency l"
  by (simp add: callEdgeDataDestructor_def Let_def split: sum.splits)

lemma remove_pair_lengths:
  "length (end0Adjacency (snd (remove_pair l p))) = length (end0Adjacency l)
   \<and> length (end1Adjacency (snd (remove_pair l p))) = length (end1Adjacency l)"
proof -
  obtain a b where p: "p = (a, b)" by (cases p) auto
  show ?thesis
  proof (cases "find (\<lambda>ixs. farNode ixs = b) (end0Adjacency l ! a)")
    case None
    then show ?thesis by (simp add: remove_pair_def p Let_def)
  next
    case (Some ixs)
    define l0 where "l0 = l\<lparr>end0Adjacency :=
       (end0Adjacency l)[a := erase_first (\<lambda>ixs. farNode ixs = b) (end0Adjacency l ! a)]\<rparr>"
    obtain e l1 where c: "callEdgeDataDestructor l0 (edgeIx ixs) = (e, l1)"
      by (cases "callEdgeDataDestructor l0 (edgeIx ixs)") auto
    have "end0Adjacency l1 = end0Adjacency l0" "end1Adjacency l1 = end1Adjacency l0"
      using callEdgeDataDestructor_adjacency[of l0 "edgeIx ixs"] c by simp_all
    then have "length (end0Adjacency l1) = length (end0Adjacency l)"
      "length (end1Adjacency l1) = length (end1Adjacency l)"
      by (simp_all add: l0_def)
    then show ?thesis
      using Some c by (cases e) (simp_all add: remove_pair_def p Let_def l0_def[symmetric])
  qed
qed

lemma remove_pairs_lengths:
  "length (end0Adjacency (snd (remove_pairs l ps))) = length (end0Adjacency l)
   \<and> length (end1Adjacency (snd (remove_pairs l ps))) = length (end1Adjacency l)"
proof (induction ps arbitrary: l)
  case (Cons p ps)
  show ?case
    using Cons.IH[of "snd (remove_pair l p)"] remove_pair_lengths[of l p]
    by (cases "remove_pair l p") (auto split: option.splits)
qed simp

lemma remove_pair_out_of_range:
  "\<not> in_range l p \<Longrightarrow> remove_pair l p = (Some OutOfRange, l)"
  by (cases p) (auto simp: remove_pair_def in_range_def)

lemma erase_first_none: "find P xs = None \<Longrightarrow> erase_first P xs = xs"
  by (induction xs) (auto split: if_splits)

lemma remove_pair_absent:
  assumes "in_range l (a, b)"
    "find (\<lambda>ixs. farNode ixs = b) (end0Adjacency l ! a) = None"
    "find (\<lambda>ixs. farNode ixs = a) (end1Adjacency l ! b) = None"
  shows "remove_pair l (a, b) = (None, l)"
  using assms by (simp add: remove_pair_def in_range_def Let_def erase_first_none)

text \<open>
  Claim C9, as stated, fails: \<open>insertEdges\<close> with the pair \<open>(0, 5)\<close> on a link between two
  components of one node each throws on the end-1 index after it has appended the entry to
  the end-0 adjacency list.
\<close>

theorem insertEdges_partial_counterexample:
  "fst (insertEdges adj_example [(0, 5)]) = Some OutOfRange
   \<and> end0Adjacency (snd (insertEdges adj_example [(0, 5)])) = [[(0, 5)]]
   \<and> end0Adjacency adj_example = [[]]"
  by (simp add: insertEdges_def adj_example_def AdjList_setDimensions_def AdjList_new_def
      push_end0_def Let_def resize_def flat_size_def)

text \<open>
  Claim C9, amended. Let the pairs \<open>pre\<close> be in range and let \<open>(a, b)\<close> have an index outside
  the configured dimensions. Then \<open>insertEdges\<close> of \<open>pre\<close>, \<open>(a, b)\<close> and any further pairs
  raises the out-of-bounds error at \<open>(a, b)\<close>; the pairs of \<open>pre\<close> have been inserted and stay
  inserted, the end-0 entry of \<open>(a, b)\<close> has been appended as well when only \<open>b\<close> is out of
  range, and the resizing of the edge data and the \<open>dirty\<close> flag are skipped. \<open>removeEdges\<close>
  raises the error at \<open>(a, b)\<close> with the pairs of \<open>pre\<close> removed (unless one of them failed
  before). When the offending pair comes first, \<open>removeEdges\<close> leaves the link as it was, and
  so does \<open>insertEdges\<close> when \<open>a\<close> is out of range. Removing a pair in range that no adjacency
  entry connects changes nothing but the \<open>dirty\<close> flag.
\<close>

theorem AdjList_out_of_range:
  assumes "list_all (in_range l) pre" and "\<not> in_range l (a, b)"
  shows "insertEdges l (pre @ (a, b) # rest) =
           (Some OutOfRange,
            if a < length (end0Adjacency l) then push_end0 (snd (insert_pairs l pre)) a b
            else snd (insert_pairs l pre))
       \<and> removeEdges l (pre @ (a, b) # rest) =
           (if fst (remove_pairs l pre) = None then (Some OutOfRange, snd (remove_pairs l pre))
            else remove_pairs l pre)
       \<and> removeEdges l ((a, b) # rest) = (Some OutOfRange, l)
       \<and> (length (end0Adjacency l) \<le> a \<longrightarrow> insertEdges l ((a, b) # rest) = (Some OutOfRange, l))
       \<and> (\<forall>a' b'. in_range l (a', b')
             \<and> find (\<lambda>ixs. farNode ixs = b') (end0Adjacency l ! a') = None
             \<and> find (\<lambda>ixs. farNode ixs = a') (end1Adjacency l ! b') = None
            \<longrightarrow> remove_pair l (a', b') = (None, l)
                \<and> removeEdges l [(a', b')] = (None, l\<lparr>adj_dirty := True\<rparr>))"
proof -
  note ir = insert_pairs_in_range[OF assms(1)]
  define l1 where "l1 = snd (insert_pairs l pre)"
  have "insert_pairs l (pre @ (a, b) # rest) = insert_pairs l1 ((a, b) # rest)"
    using insert_pairs_append ir by (simp add: l1_def)
  also have "\<dots> = (Some OutOfRange, if a < length (end0Adjacency l) then push_end0 l1 a b else l1)"
    using assms(2) ir by (auto simp: in_range_def l1_def Let_def)
  finally have 1: "insertEdges l (pre @ (a, b) # rest) =
           (Some OutOfRange,
            if a < length (end0Adjacency l) then push_end0 (snd (insert_pairs l pre)) a b
            else snd (insert_pairs l pre))"
    by (simp add: insertEdges_def l1_def)
  define l2 where "l2 = snd (remove_pairs l pre)"
  have "\<not> in_range l2 (a, b)"
    using assms(2) remove_pairs_lengths[of l pre] by (simp add: in_range_def l2_def)
  then have "remove_pairs l2 ((a, b) # rest) = (Some OutOfRange, l2)"
    by (simp add: remove_pair_out_of_range)
  then have 2: "removeEdges l (pre @ (a, b) # rest) =
           (if fst (remove_pairs l pre) = None then (Some OutOfRange, snd (remove_pairs l pre))
            else remove_pairs l pre)"
    by (cases "remove_pairs l pre") (auto simp: removeEdges_def remove_pairs_append l2_def)
  have 3: "removeEdges l ((a, b) # rest) = (Some OutOfRange, l)"
    using assms(2) by (simp add: removeEdges_def remove_pair_out_of_range)
  have 4: "length (end0Adjacency l) \<le> a \<longrightarrow> insertEdges l ((a, b) # rest) = (Some OutOfRange, l)"
    by (simp add: insertEdges_def)
  have 5: "remove_pair l (a', b') = (None, l)
                \<and> removeEdges l [(a', b')] = (None, l\<lparr>adj_dirty := True\<rparr>)"
    if "in_range l (a', b')"
       "find (\<lambda>ixs. farNode ixs = b') (end0Adjacency l ! a') = None"
       "find (\<lambda>ixs. farNode ixs = a') (end1Adjacency l ! b') = None" for a' b'
    using remove_pair_absent[OF that] by (simp add: removeEdges_def)
  show ?thesis using 1 2 3 4 5 by blast
qed

lemma adj_example_eval:
  "end0Adjacency adj_example = [[]]" "end1Adjacency adj_example = [[]]"
  by (simp_all add: adj_example_def AdjList_setDimensions_def AdjList_new_def resize_def flat_size_def)

theorem AdjList_out_of_range_witness:
  "list_all (in_range adj_example) [(0, 0)] \<and> \<not> in_range adj_example (0, 5)
   \<and> insertEdges adj_example ([(0, 0)] @ (0, 5) # []) =
       (Some OutOfRange, push_end0 (snd (insert_pairs adj_example [(0, 0)])) 0 5)
   \<and> removeEdges adj_example ((0, 5) # []) = (Some OutOfRange, adj_example)
   \<and> in_range adj_example (0, 0)
   \<and> removeEdges adj_example [(0, 0)] = (None, adj_example\<lparr>adj_dirty := True\<rparr>)"
proof -
  have h: "list_all (in_range adj_example) [(0, 0)]" "\<not> in_range adj_example (0, 5)"
    "in_range adj_example (0, 0)"
    "find (\<lambda>ixs. farNode ixs = 0) (end0Adjacency adj_example ! 0) = None"
    "find (\<lambda>ixs. farNode ixs = 0) (end1Adjacency adj_example ! 0) = None"
    by (simp_all add: in_range_def adj_example_eval)
  note th = AdjList_out_of_range[OF h(1,2), of "[]"]
  have "0 < length (end0Adjacency adj_example)" by (simp add: adj_example_eval)
  with th h show ?thesis by (simp only: if_True) blast
qed

end
